theory Spec2Isabelle
  imports Main "HOL-Library.Word" "HOL-Library.Sublist"
begin

section \<open>Data model\<close>

text \<open>
  Keys are Python \<open>str\<close>, payloads are \<open>bytes\<close>. Exceptions are values of
  \<open>error\<close>, named as the Python classes the source raises. The specification's
  taxonomy names them differently: \<open>NotFound\<close> is \<open>FileNotFoundError\<close>,
  \<open>Unsupported\<close> is the \<open>RuntimeError\<close> of the read-only HTTP backend,
  \<open>ConfigurationError\<close> is the \<open>AssertionError\<close> of the factory's
  \<open>assert ... is not None\<close>, \<open>UnsupportedKind\<close> is its
  \<open>NotImplementedError\<close>. \<open>ClientError\<close> stands for any failure raised
  inside an external client library (boto3, httpx, google-cloud-storage).
  Telemetry (spans and latency histograms) has no influence on results and is left out.
\<close>

type_synonym bytes = "8 word list"

datatype error =
    FileNotFoundError
  | FileExistsError
  | NotADirectoryError
  | IsADirectoryError
  | RuntimeError
  | AssertionError
  | NotImplementedError
  | ValueError
  | ClientError string

section \<open>The counting semaphore and the worker pool (standard library)\<close>

text \<open>
  \<open>asyncio.Semaphore(value)\<close> is a counter: the constructor rejects a negative
  value, \<open>acquire\<close> proceeds only while the counter is positive and decrements it
  (\<open>None\<close>: the caller stays suspended), \<open>release\<close> increments it.
  \<open>ThreadPoolExecutor(max_workers)\<close> rejects \<open>max_workers \<le> 0\<close>.
\<close>

definition Semaphore :: "int \<Rightarrow> error + nat" where
  "Semaphore v = (if v < 0 then Inl ValueError else Inr (nat v))"

definition ThreadPoolExecutor :: "int \<Rightarrow> error + nat" where
  "ThreadPoolExecutor max_workers =
     (if max_workers \<le> 0 then Inl ValueError else Inr (nat max_workers))"

definition acquire :: "nat \<Rightarrow> nat option" where
  "acquire v = (if 0 < v then Some (v - 1) else None)"

definition release :: "nat \<Rightarrow> nat" where
  "release v = v + 1"

text \<open>
  \<open>async with sem: body\<close> for one logical task: acquire, run the body, release on
  every exit path (\<open>__aexit__\<close> runs whether the body returned or raised; the
  body's outcome \<open>r\<close> carries either). The result is the body's outcome, the
  counter after the block and the world after the body; \<open>None\<close> when the task
  never gets past \<open>acquire\<close>.
\<close>

definition with_semaphore :: "nat \<Rightarrow> ('w \<Rightarrow> 'r \<times> 'w) \<Rightarrow> 'w \<Rightarrow> ('r \<times> nat \<times> 'w) option" where
  "with_semaphore sem body w =
     (case acquire sem of
        None \<Rightarrow> None
      | Some sem1 \<Rightarrow> (case body w of (r, w') \<Rightarrow> Some (r, release sem1, w')))"

section \<open>The backend contract and the pooled wrapper\<close>

text \<open>
  \<open>StorageBackend\<close> (abc.py): the two abstract methods. A backend acts on a world
  \<open>'w\<close> (a file system, a remote store) and returns the outcome with the new world.
\<close>

record 'w StorageBackend =
  backend_get :: "string \<Rightarrow> 'w \<Rightarrow> (error + bytes) \<times> 'w"
  backend_put :: "string \<Rightarrow> bytes \<Rightarrow> 'w \<Rightarrow> (error + unit) \<times> 'w"

record 'w PooledStorage =
  pool_backend :: "'w StorageBackend"
  pool_semaphore :: nat

definition PooledStorage_init :: "'w StorageBackend \<Rightarrow> int \<Rightarrow> error + 'w PooledStorage" where
  "PooledStorage_init backend max_concurrent =
     (case Semaphore max_concurrent of
        Inl e \<Rightarrow> Inl e
      | Inr sem \<Rightarrow> Inr \<lparr>pool_backend = backend, pool_semaphore = sem\<rparr>)"



subsection \<open>Many callers: the interleavings of the wrapper\<close>

text \<open>
  Any number of tasks call \<open>get\<close>/\<open>put\<close> on one wrapper. A call is
  \<open>Waiting\<close> at \<open>async with self.semaphore\<close>, \<open>Active\<close> while the delegated
  \<open>backend.get\<close>/\<open>backend.put\<close> runs, and \<open>Finished\<close> once the block is
  left. The event loop picks the next event freely: a new call arrives, call \<open>i\<close>
  gets through \<open>acquire\<close>, or the delegated call of \<open>i\<close> ends (returning when
  the flag is \<open>False\<close>, raising when it is \<open>True\<close>) and \<open>release\<close> runs.
  An event that is not enabled leaves the state as it is (a task suspended in
  \<open>acquire\<close> stays suspended).
\<close>

datatype call = Waiting | Active | Finished bool

record pool =
  pool_sem :: nat
  pool_calls :: "call list"

datatype pool_event = Call | Enter nat | Leave nat bool

definition pool_init :: "nat \<Rightarrow> pool" where
  "pool_init n = \<lparr>pool_sem = n, pool_calls = []\<rparr>"

fun pool_step :: "pool \<Rightarrow> pool_event \<Rightarrow> pool" where
  "pool_step s Call = s\<lparr>pool_calls := pool_calls s @ [Waiting]\<rparr>"
| "pool_step s (Enter i) =
     (if i < length (pool_calls s) \<and> pool_calls s ! i = Waiting then
        (case acquire (pool_sem s) of
           None \<Rightarrow> s
         | Some v \<Rightarrow> s\<lparr>pool_sem := v, pool_calls := (pool_calls s)[i := Active]\<rparr>)
      else s)"
| "pool_step s (Leave i raised) =
     (if i < length (pool_calls s) \<and> pool_calls s ! i = Active then
        s\<lparr>pool_sem := release (pool_sem s), pool_calls := (pool_calls s)[i := Finished raised]\<rparr>
      else s)"

definition pool_run :: "nat \<Rightarrow> pool_event list \<Rightarrow> pool" where
  "pool_run n evs = foldl pool_step (pool_init n) evs"

definition active :: "pool \<Rightarrow> nat" where
  "active s = count_list (pool_calls s) Active"

subsection \<open>Calls without a suspension point\<close>


section \<open>pathlib and the operating system (external)\<close>

text \<open>
  \<open>LocalStorage\<close> reaches the file system through a few operations of
  \<open>pathlib.Path\<close>. They belong to the standard library and the operating system,
  so they are parameters: \<open>'p\<close> is the type of paths, \<open>'w\<close> the state of the file
  system. \<open>truediv root key\<close> is \<open>root / key\<close> and \<open>parent\<close> is
  \<open>Path.parent\<close>, both without effect; \<open>mkdir\<close> is
  \<open>Path.mkdir(parents=True, exist_ok=True)\<close>; \<open>write_bytes\<close> and
  \<open>read_bytes\<close> may fail and may change the state; \<open>path_exists\<close> is
  \<open>Path.exists()\<close>, which answers or raises (an \<open>OSError\<close> other than
  not-found) and changes nothing.
\<close>

record ('p, 'w) pathlib =
  truediv :: "'p \<Rightarrow> string \<Rightarrow> 'p"
  parent :: "'p \<Rightarrow> 'p"
  mkdir :: "'p \<Rightarrow> 'w \<Rightarrow> (error + unit) \<times> 'w"
  write_bytes :: "'p \<Rightarrow> bytes \<Rightarrow> 'w \<Rightarrow> (error + unit) \<times> 'w"
  path_exists :: "'p \<Rightarrow> 'w \<Rightarrow> error + bool"
  read_bytes :: "'p \<Rightarrow> 'w \<Rightarrow> (error + bytes) \<times> 'w"

text \<open>
  A state \<open>w'\<close> of the file system reads the path \<open>p\<close> back when, whatever
  \<open>write_bytes\<close> call on \<open>p\<close> ended in \<open>w'\<close>, the path exists there and
  \<open>read_bytes\<close> returns the bytes that call was given. A readable regular file is
  read back; a device, a pipe or a file that may not be read is not.
\<close>

definition reads_back :: "('p, 'w) pathlib \<Rightarrow> 'p \<Rightarrow> 'w \<Rightarrow> bool" where
  "reads_back os p w' =
     (\<forall>data w.
        write_bytes os p data w = (Inr (), w') \<longrightarrow>
        path_exists os p w' = Inr True \<and> fst (read_bytes os p w') = Inr data)"

section \<open>LocalStorage (local.py)\<close>

text \<open>
  The \<open>file\<close> argument of \<open>put\<close> is the bytes its \<open>read()\<close> returns. Neither
  method contains an \<open>await\<close>, and the object holds no semaphore.
\<close>

record 'p LocalStorage =
  local_root :: 'p

definition LocalStorage_init ::
  "('p, 'w) pathlib \<Rightarrow> 'p \<Rightarrow> 'w \<Rightarrow> (error + 'p LocalStorage) \<times> 'w" where
  "LocalStorage_init os root w =
     (case mkdir os root w of
        (Inl e, w1) \<Rightarrow> (Inl e, w1)
      | (Inr _, w1) \<Rightarrow> (Inr \<lparr>local_root = root\<rparr>, w1))"

definition LocalStorage_put ::
  "('p, 'w) pathlib \<Rightarrow> 'p LocalStorage \<Rightarrow> string \<Rightarrow> bytes \<Rightarrow> 'w \<Rightarrow> (error + unit) \<times> 'w" where
  "LocalStorage_put os self key file w =
     (let path = truediv os (local_root self) key in
      case mkdir os (parent os path) w of
        (Inl e, w1) \<Rightarrow> (Inl e, w1)
      | (Inr _, w1) \<Rightarrow> write_bytes os path file w1)"

definition LocalStorage_get ::
  "('p, 'w) pathlib \<Rightarrow> 'p LocalStorage \<Rightarrow> string \<Rightarrow> 'w \<Rightarrow> (error + bytes) \<times> 'w" where
  "LocalStorage_get os self key w =
     (let path = truediv os (local_root self) key in
      case path_exists os path w of
        Inl e \<Rightarrow> (Inl e, w)
      | Inr found \<Rightarrow>
          if \<not> found then (Inl FileNotFoundError, w)
          else read_bytes os path w)"

section \<open>Python string stripping\<close>

definition lstrip :: "char \<Rightarrow> string \<Rightarrow> string" where
  "lstrip c s = dropWhile (\<lambda>x. x = c) s"

definition rstrip :: "char \<Rightarrow> string \<Rightarrow> string" where
  "rstrip c s = rev (dropWhile (\<lambda>x. x = c) (rev s))"

definition strip :: "char \<Rightarrow> string \<Rightarrow> string" where
  "strip c s = lstrip c (rstrip c s)"

section \<open>HTTPStorage (http.py)\<close>

text \<open>
  The httpx client is external: \<open>client_get\<close> is its \<open>get(url)\<close>, acting on the
  remote world, \<open>raise_for_status\<close> its check of the response. Building it,
  \<open>httpx.Client(headers=headers)\<close>, may raise: the constructor takes the outcome
  \<open>made\<close> of that call (\<open>Inl\<close> the exception it raised).
\<close>

record response =
  status_code :: nat
  content :: bytes

record 'w http_client =
  client_get :: "string \<Rightarrow> 'w \<Rightarrow> (error + response) \<times> 'w"
  raise_for_status :: "response \<Rightarrow> error option"

record HTTPStorage =
  http_base_url :: string
  http_headers :: "(string \<times> string) list"
  http_max_workers :: nat
  http_semaphore :: nat

definition HTTPStorage_init ::
  "error + unit \<Rightarrow> string \<Rightarrow> (string \<times> string) list \<Rightarrow> int \<Rightarrow> error + HTTPStorage" where
  "HTTPStorage_init made base_url headers max_concurrent =
     (case made of
        Inl e \<Rightarrow> Inl e
      | Inr _ \<Rightarrow>
          (case ThreadPoolExecutor max_concurrent of
             Inl e \<Rightarrow> Inl e
           | Inr workers \<Rightarrow>
               (case Semaphore max_concurrent of
                  Inl e \<Rightarrow> Inl e
                | Inr sem \<Rightarrow>
                    Inr \<lparr>http_base_url = rstrip (CHR ''/'') base_url, http_headers = headers,
                         http_max_workers = workers, http_semaphore = sem\<rparr>)))"

definition HTTPStorage_put ::
  "HTTPStorage \<Rightarrow> string \<Rightarrow> bytes \<Rightarrow> 'w \<Rightarrow> (error + unit) \<times> HTTPStorage \<times> 'w" where
  "HTTPStorage_put self key file w = (Inl RuntimeError, self, w)"

definition HTTPStorage_get ::
  "'w http_client \<Rightarrow> HTTPStorage \<Rightarrow> string \<Rightarrow> 'w \<Rightarrow> ((error + bytes) \<times> HTTPStorage \<times> 'w) option" where
  "HTTPStorage_get client self key w =
     (let url = http_base_url self @ ''/'' @ key in
      case with_semaphore (http_semaphore self) (client_get client url) w of
        None \<Rightarrow> None
      | Some (r, sem, w') \<Rightarrow>
          Some (case r of
                  Inl e \<Rightarrow> Inl e
                | Inr resp \<Rightarrow>
                    (case raise_for_status client resp of
                       Some e \<Rightarrow> Inl e
                     | None \<Rightarrow> Inr (content resp)),
                self\<lparr>http_semaphore := sem\<rparr>, w'))"

section \<open>S3Storage (s3.py)\<close>

text \<open>
  The boto3 client is external: \<open>upload_fileobj file bucket name\<close> and
  \<open>download_fileobj bucket name\<close> (the bytes written to the buffer) act on the
  remote world. Building it, \<open>boto3.client("s3")\<close>, may raise: the constructor
  takes the outcome \<open>made\<close> of that call.
\<close>

record 'w s3_client =
  upload_fileobj :: "bytes \<Rightarrow> string \<Rightarrow> string \<Rightarrow> 'w \<Rightarrow> (error + unit) \<times> 'w"
  download_fileobj :: "string \<Rightarrow> string \<Rightarrow> 'w \<Rightarrow> (error + bytes) \<times> 'w"

record S3Storage =
  s3_bucket :: string
  s3_prefix :: string
  s3_max_workers :: nat
  s3_semaphore :: nat

definition S3Storage_init :: "error + unit \<Rightarrow> string \<Rightarrow> string \<Rightarrow> int \<Rightarrow> error + S3Storage" where
  "S3Storage_init made bucket pref max_concurrent =
     (case made of
        Inl e \<Rightarrow> Inl e
      | Inr _ \<Rightarrow>
          (case ThreadPoolExecutor max_concurrent of
             Inl e \<Rightarrow> Inl e
           | Inr workers \<Rightarrow>
               (case Semaphore max_concurrent of
                  Inl e \<Rightarrow> Inl e
                | Inr sem \<Rightarrow>
                    Inr \<lparr>s3_bucket = strip (CHR ''/'') bucket,
                         s3_prefix = strip (CHR ''/'') pref @ ''/'',
                         s3_max_workers = workers, s3_semaphore = sem\<rparr>)))"

definition S3Storage_put ::
  "'w s3_client \<Rightarrow> S3Storage \<Rightarrow> string \<Rightarrow> bytes \<Rightarrow> 'w \<Rightarrow> ((error + unit) \<times> S3Storage \<times> 'w) option" where
  "S3Storage_put client self key file w =
     (case with_semaphore (s3_semaphore self)
             (upload_fileobj client file (s3_bucket self) (s3_prefix self @ lstrip (CHR ''/'') key)) w of
        None \<Rightarrow> None
      | Some (r, sem, w') \<Rightarrow> Some (r, self\<lparr>s3_semaphore := sem\<rparr>, w'))"

definition S3Storage_get ::
  "'w s3_client \<Rightarrow> S3Storage \<Rightarrow> string \<Rightarrow> 'w \<Rightarrow> ((error + bytes) \<times> S3Storage \<times> 'w) option" where
  "S3Storage_get client self key w =
     (case with_semaphore (s3_semaphore self)
             (download_fileobj client (s3_bucket self) (s3_prefix self @ lstrip (CHR ''/'') key)) w of
        None \<Rightarrow> None
      | Some (r, sem, w') \<Rightarrow> Some (r, self\<lparr>s3_semaphore := sem\<rparr>, w'))"

section \<open>GCSStorage (gcs.py): the constructor\<close>

text \<open>
  The constructor builds \<open>storage.Client()\<close> first, and that call raises where no
  credentials are found: the constructor takes its outcome \<open>made\<close>.
\<close>

record GCSStorage =
  gcs_bucket :: string
  gcs_prefix :: string
  gcs_max_workers :: nat
  gcs_semaphore :: nat

definition GCSStorage_init :: "error + unit \<Rightarrow> string \<Rightarrow> string \<Rightarrow> int \<Rightarrow> error + GCSStorage" where
  "GCSStorage_init made bucket pref max_concurrent =
     (case made of
        Inl e \<Rightarrow> Inl e
      | Inr _ \<Rightarrow>
          (case ThreadPoolExecutor max_concurrent of
             Inl e \<Rightarrow> Inl e
           | Inr workers \<Rightarrow>
               (case Semaphore max_concurrent of
                  Inl e \<Rightarrow> Inl e
                | Inr sem \<Rightarrow>
                    Inr \<lparr>gcs_bucket = bucket,
                         gcs_prefix = lstrip (CHR ''/'') pref @ ''/'',
                         gcs_max_workers = workers, gcs_semaphore = sem\<rparr>)))"

section \<open>Settings (settings.py) and the factory \<open>build_storage\<close>\<close>

text \<open>
  \<open>build_storage\<close> reads attributes of whatever object it is given, so the
  settings are one record of all attributes it may read; a field that is \<open>None\<close>
  is a missing one. The four pydantic models build it with their discriminator and
  their defaults (\<open>headers = {}\<close>, \<open>prefix = ""\<close>).
\<close>

record 'p settings =
  cfg_backend :: string
  cfg_root_dir :: "'p option"
  cfg_base_url :: "string option"
  cfg_headers :: "(string \<times> string) list"
  cfg_bucket :: "string option"
  cfg_prefix :: string





text \<open>
  The outcomes of building the three client handles in the environment the factory runs
  in; that of httpx depends on the headers it is given.
\<close>

record libraries =
  httpx_Client :: "(string \<times> string) list \<Rightarrow> error + unit"
  boto3_client :: "error + unit"
  storage_Client :: "error + unit"

datatype 'p storage =
    Local "'p LocalStorage"
  | HTTP HTTPStorage
  | S3 S3Storage
  | GCS GCSStorage

text \<open>
  Only the \<open>s3\<close> branch hands \<open>max_concurrent\<close> on; \<open>HTTPStorage\<close> and
  \<open>GCSStorage\<close> are built with their constructors' default \<open>max_concurrent = 1\<close>,
  and \<open>LocalStorage\<close> has no such parameter. The result is never wrapped in
  \<open>PooledStorage\<close>. The factory runs in an environment: the file system \<open>os\<close>
  and the client libraries \<open>libs\<close>.
\<close>

definition build_storage ::
  "('p, 'w) pathlib \<Rightarrow> libraries \<Rightarrow> 'p settings \<Rightarrow> int \<Rightarrow> 'w \<Rightarrow> (error + 'p storage) \<times> 'w" where
  "build_storage os libs st max_concurrent w =
     (if cfg_backend st = ''local'' then
        (case cfg_root_dir st of
           None \<Rightarrow> (Inl AssertionError, w)
         | Some root_dir \<Rightarrow>
             (case LocalStorage_init os root_dir w of
                (Inl e, w') \<Rightarrow> (Inl e, w')
              | (Inr b, w') \<Rightarrow> (Inr (Local b), w')))
      else if cfg_backend st = ''http'' then
        (case cfg_base_url st of
           None \<Rightarrow> (Inl AssertionError, w)
         | Some base_url \<Rightarrow>
             (case HTTPStorage_init (httpx_Client libs (cfg_headers st)) base_url (cfg_headers st) 1 of
                Inl e \<Rightarrow> (Inl e, w)
              | Inr b \<Rightarrow> (Inr (HTTP b), w)))
      else if cfg_backend st = ''s3'' then
        (case cfg_bucket st of
           None \<Rightarrow> (Inl AssertionError, w)
         | Some bucket \<Rightarrow>
             (case S3Storage_init (boto3_client libs) bucket (cfg_prefix st) max_concurrent of
                Inl e \<Rightarrow> (Inl e, w)
              | Inr b \<Rightarrow> (Inr (S3 b), w)))
      else if cfg_backend st = ''gcs'' then
        (case cfg_bucket st of
           None \<Rightarrow> (Inl AssertionError, w)
         | Some bucket \<Rightarrow>
             (case GCSStorage_init (storage_Client libs) bucket (cfg_prefix st) 1 of
                Inl e \<Rightarrow> (Inl e, w)
              | Inr b \<Rightarrow> (Inr (GCS b), w)))
      else (Inl NotImplementedError, w))"


definition required_field_missing :: "'p settings \<Rightarrow> bool" where
  "required_field_missing st =
     (if cfg_backend st = ''local'' then cfg_root_dir st = None
      else if cfg_backend st = ''http'' then cfg_base_url st = None
      else if cfg_backend st = ''s3'' \<or> cfg_backend st = ''gcs'' then cfg_bucket st = None
      else False)"

definition known_kind :: "string \<Rightarrow> bool" where
  "known_kind k = (k = ''local'' \<or> k = ''http'' \<or> k = ''s3'' \<or> k = ''gcs'')"


section \<open>The batch transfer \<open>download_images\<close>\<close>

text \<open>
  \<open>tagged(key, coro)\<close> returns the key with the download's result; when the download
  raises, the exception leaves \<open>tagged\<close> as it is.
\<close>

definition tagged :: "string \<Rightarrow> error + bytes \<Rightarrow> error + string \<times> bytes" where
  "tagged key r = (case r of Inl e \<Rightarrow> Inl e | Inr data \<Rightarrow> Inr (key, data))"

text \<open>
  The coroutine creates one task per image, then loops over \<open>as_completed\<close>. Its
  state: the indices of the tasks that are done, the outcomes of the done tasks in the
  order they completed (what \<open>as_completed\<close> hands out), how many of them the loop
  has taken, the \<open>output.put\<close> calls started so far, and where the coroutine stands:
  \<open>Awaiting\<close> at \<open>await fut\<close>, \<open>Uploading\<close> at \<open>await output.put(...)\<close>,
  \<open>Returned\<close>, or \<open>Raised\<close> with the exception that left it.

  The events are the scheduler's: task \<open>i\<close> completes with an outcome of
  \<open>input.get\<close>; the coroutine is resumed at \<open>await fut\<close> with the next completed
  task (a failed task raises there, a successful one starts its upload at once); the
  running upload ends with an outcome of \<open>output.put\<close>. An event that is not enabled
  leaves the state as it is.
\<close>

datatype progress = Awaiting | Uploading | Returned | Raised error

record batch =
  images :: "string list"
  finished :: "nat list"
  completed :: "(error + string \<times> bytes) list"
  consumed :: nat
  put_calls :: "(string \<times> bytes) list"
  progress :: progress

datatype batch_event =
    DownloadDone nat "error + bytes"
  | Resume
  | UploadDone "error + unit"

definition next_iteration :: "batch \<Rightarrow> progress" where
  "next_iteration s = (if consumed s < length (images s) then Awaiting else Returned)"

definition download_images_init :: "string list \<Rightarrow> batch" where
  "download_images_init imgs =
     \<lparr>images = imgs, finished = [], completed = [], consumed = 0, put_calls = [],
      progress = (if imgs = [] then Returned else Awaiting)\<rparr>"

fun download_images_step :: "batch \<Rightarrow> batch_event \<Rightarrow> batch" where
  "download_images_step s (DownloadDone i r) =
     (if i < length (images s) \<and> i \<notin> set (finished s) then
        s\<lparr>finished := i # finished s, completed := completed s @ [tagged (images s ! i) r]\<rparr>
      else s)"
| "download_images_step s Resume =
     (if progress s = Awaiting \<and> consumed s < length (completed s) then
        (case completed s ! consumed s of
           Inl e \<Rightarrow> s\<lparr>consumed := Suc (consumed s), progress := Raised e\<rparr>
         | Inr (img, result) \<Rightarrow>
             s\<lparr>consumed := Suc (consumed s), put_calls := put_calls s @ [(img, result)],
               progress := Uploading\<rparr>)
      else s)"
| "download_images_step s (UploadDone r) =
     (if progress s = Uploading then
        (case r of
           Inl e \<Rightarrow> s\<lparr>progress := Raised e\<rparr>
         | Inr _ \<Rightarrow> s\<lparr>progress := next_iteration s\<rparr>)
      else s)"

definition download_images :: "string list \<Rightarrow> batch_event list \<Rightarrow> batch" where
  "download_images imgs evs = foldl download_images_step (download_images_init imgs) evs"

text \<open>
  What the loop keeps true: the uploads started are the first completed downloads, in
  that order, and while the coroutine is alive it has taken as many completed tasks as
  it has started uploads.
\<close>

definition batch_inv :: "batch \<Rightarrow> bool" where
  "batch_inv s =
     (length (put_calls s) \<le> length (completed s)
      \<and> map Inr (put_calls s) = take (length (put_calls s)) (completed s)
      \<and> (if progress s = Awaiting \<or> progress s = Uploading
         then consumed s = length (put_calls s) else True))"

section \<open>Concrete inputs used by the examples\<close>


definition recording_client :: "(string \<times> string) list s3_client" where
  "recording_client =
     \<lparr>upload_fileobj = (\<lambda>file bucket name log. (Inr (), log @ [(bucket, name)])),
      download_fileobj = (\<lambda>bucket name log. (Inr [], log @ [(bucket, name)]))\<rparr>"

definition working_libraries :: libraries where
  "working_libraries =
     \<lparr>httpx_Client = (\<lambda>headers. Inr ()), boto3_client = Inr (), storage_Client = Inr ()\<rparr>"


subsection \<open>A small file system\<close>

text \<open>
  One file system to run the examples on. A path is the list of its components, the
  last one first: \<open>[]\<close> is the root \<open>/\<close> and \<open>tl\<close> the parent (the root is its own
  parent). A path holds a directory, a regular file with its content, or the null
  device, which accepts every write and reads as empty. It has no permissions, links,
  name limits or \<open>..\<close> entries; the examples use none. \<open>root / key\<close> splits the key at
  \<open>/\<close> and drops empty and \<open>.\<close> components, and a key that starts with \<open>/\<close>
  replaces the root. \<open>mem_mkdir_parents\<close> follows pathlib's
  \<open>mkdir(parents=True, exist_ok=True)\<close>: on \<open>FileNotFoundError\<close> the parent is made
  first, any other error is swallowed when the path is a directory.
\<close>

type_synonym path = "string list"

datatype node = Dir | File bytes | Null

type_synonym fs = "path \<rightharpoonup> node"

fun split_sep :: "char \<Rightarrow> string \<Rightarrow> string list" where
  "split_sep c [] = [[]]"
| "split_sep c (x # xs) =
     (if x = c then [] # split_sep c xs
      else (case split_sep c xs of [] \<Rightarrow> [[x]] | w # ws \<Rightarrow> (x # w) # ws))"

definition parts :: "string \<Rightarrow> string list" where
  "parts s = filter (\<lambda>p. p \<noteq> [] \<and> p \<noteq> ''.'') (split_sep (CHR ''/'') s)"

definition mem_truediv :: "path \<Rightarrow> string \<Rightarrow> path" where
  "mem_truediv root key =
     (case key of
        [] \<Rightarrow> root
      | c # _ \<Rightarrow> if c = CHR ''/'' then rev (parts key) else rev (parts key) @ root)"

definition mem_is_dir :: "path \<Rightarrow> fs \<Rightarrow> bool" where
  "mem_is_dir p fs = (fs p = Some Dir)"

definition mem_os_mkdir :: "path \<Rightarrow> fs \<Rightarrow> error + fs" where
  "mem_os_mkdir p fs =
     (case fs p of
        Some _ \<Rightarrow> Inl FileExistsError
      | None \<Rightarrow>
          (case fs (tl p) of
             None \<Rightarrow> Inl FileNotFoundError
           | Some Dir \<Rightarrow> Inr (fs(p \<mapsto> Dir))
           | Some _ \<Rightarrow> Inl NotADirectoryError))"

definition mem_mkdir_exist_ok :: "path \<Rightarrow> fs \<Rightarrow> error + fs" where
  "mem_mkdir_exist_ok p fs =
     (case mem_os_mkdir p fs of
        Inr fs' \<Rightarrow> Inr fs'
      | Inl e \<Rightarrow>
          if e = FileNotFoundError then Inl e
          else if mem_is_dir p fs then Inr fs
          else Inl e)"

fun mem_mkdir_parents :: "path \<Rightarrow> fs \<Rightarrow> error + fs" where
  "mem_mkdir_parents [] fs = mem_mkdir_exist_ok [] fs"
| "mem_mkdir_parents (c # p) fs =
     (case mem_os_mkdir (c # p) fs of
        Inr fs' \<Rightarrow> Inr fs'
      | Inl e \<Rightarrow>
          if e = FileNotFoundError then
            (case mem_mkdir_parents p fs of
               Inl e' \<Rightarrow> Inl e'
             | Inr fs1 \<Rightarrow> mem_mkdir_exist_ok (c # p) fs1)
          else if mem_is_dir (c # p) fs then Inr fs
          else Inl e)"

definition mem_write_bytes :: "path \<Rightarrow> bytes \<Rightarrow> fs \<Rightarrow> error + fs" where
  "mem_write_bytes p data fs =
     (case fs p of
        Some Dir \<Rightarrow> Inl IsADirectoryError
      | Some (File _) \<Rightarrow> Inr (fs(p \<mapsto> File data))
      | Some Null \<Rightarrow> Inr fs
      | None \<Rightarrow>
          (case fs (tl p) of
             None \<Rightarrow> Inl FileNotFoundError
           | Some Dir \<Rightarrow> Inr (fs(p \<mapsto> File data))
           | Some _ \<Rightarrow> Inl NotADirectoryError))"

definition mem_read_bytes :: "path \<Rightarrow> fs \<Rightarrow> error + bytes" where
  "mem_read_bytes p fs =
     (case fs p of
        None \<Rightarrow> Inl FileNotFoundError
      | Some Dir \<Rightarrow> Inl IsADirectoryError
      | Some (File data) \<Rightarrow> Inr data
      | Some Null \<Rightarrow> Inr [])"

definition mem_os :: "(path, fs) pathlib" where
  "mem_os =
     \<lparr>truediv = mem_truediv,
      parent = tl,
      mkdir = (\<lambda>p fs. case mem_mkdir_parents p fs of
                         Inl e \<Rightarrow> (Inl e, fs)
                       | Inr fs' \<Rightarrow> (Inr (), fs')),
      write_bytes = (\<lambda>p data fs. case mem_write_bytes p data fs of
                                    Inl e \<Rightarrow> (Inl e, fs)
                                  | Inr fs' \<Rightarrow> (Inr (), fs')),
      path_exists = (\<lambda>p fs. Inr (fs p \<noteq> None)),
      read_bytes = (\<lambda>p fs. (mem_read_bytes p fs, fs))\<rparr>"

definition root_only :: fs where
  "root_only = [[] \<mapsto> Dir]"

definition tmp_x :: path where
  "tmp_x = [''x'', ''tmp'']"

definition with_tmp_x :: fs where
  "with_tmp_x = [[] \<mapsto> Dir, [''tmp''] \<mapsto> Dir, [''x'', ''tmp''] \<mapsto> Dir]"

definition with_dev_null :: fs where
  "with_dev_null =
     [[] \<mapsto> Dir, [''tmp''] \<mapsto> Dir, [''x'', ''tmp''] \<mapsto> Dir,
      [''dev''] \<mapsto> Dir, [''null'', ''dev''] \<mapsto> Null]"

section \<open>Permit accounting\<close>

lemma count_list_append1:
  "count_list (xs @ [y]) a = count_list xs a + (if y = a then 1 else 0)"
  by (induction xs) auto

lemma count_list_update_in:
  "i < length xs \<Longrightarrow> xs ! i \<noteq> a \<Longrightarrow> count_list (xs[i := a]) a = Suc (count_list xs a)"
proof (induction xs arbitrary: i)
  case Nil
  then show ?case by simp
next
  case (Cons x xs)
  then show ?case by (cases i) auto
qed

lemma count_list_update_out:
  "i < length xs \<Longrightarrow> xs ! i = a \<Longrightarrow> y \<noteq> a \<Longrightarrow> Suc (count_list (xs[i := y]) a) = count_list xs a"
proof (induction xs arbitrary: i)
  case Nil
  then show ?case by simp
next
  case (Cons x xs)
  then show ?case by (cases i) auto
qed

lemma pool_step_balance:
  "pool_sem (pool_step s ev) + active (pool_step s ev) = pool_sem s + active s"
proof (cases ev)
  case Call
  then show ?thesis by (simp add: active_def count_list_append1)
next
  case (Enter i)
  show ?thesis
  proof (cases "i < length (pool_calls s) \<and> pool_calls s ! i = Waiting \<and> 0 < pool_sem s")
    case True
    then have "count_list ((pool_calls s)[i := Active]) Active = Suc (count_list (pool_calls s) Active)"
      by (intro count_list_update_in) auto
    with True Enter show ?thesis by (simp add: active_def acquire_def)
  next
    case False
    with Enter show ?thesis by (auto simp: active_def acquire_def)
  qed
next
  case (Leave i raised)
  show ?thesis
  proof (cases "i < length (pool_calls s) \<and> pool_calls s ! i = Active")
    case True
    then have "Suc (count_list ((pool_calls s)[i := Finished raised]) Active) = count_list (pool_calls s) Active"
      by (intro count_list_update_out) auto
    with True Leave show ?thesis by (simp add: active_def release_def)
  next
    case False
    with Leave show ?thesis by auto
  qed
qed

lemma pool_foldl_balance:
  "pool_sem (foldl pool_step s evs) + active (foldl pool_step s evs) = pool_sem s + active s"
  by (induction evs arbitrary: s) (simp_all add: pool_step_balance)

text \<open>
  C1. A wrapper built with limit \<open>n\<close> never has more than \<open>n\<close> delegated calls
  active at once, whatever the number of callers and however the event loop
  interleaves them: after every sequence of events the permits left and the active
  calls add up to \<open>n\<close>.
\<close>

theorem pooled_concurrency_bound:
  "active (pool_run n evs) \<le> n \<and> pool_sem (pool_run n evs) + active (pool_run n evs) = n"
proof -
  have "pool_sem (pool_run n evs) + active (pool_run n evs) = pool_sem (pool_init n) + active (pool_init n)"
    unfolding pool_run_def by (rule pool_foldl_balance)
  then have "pool_sem (pool_run n evs) + active (pool_run n evs) = n"
    by (simp add: pool_init_def active_def)
  then show ?thesis by simp
qed

theorem pooled_concurrency_bound_witness:
  "active (pool_run 1 [Call, Call, Enter 0, Enter 1]) = 1
   \<and> pool_sem (pool_run 1 [Call, Call, Enter 0, Enter 1]) = 0
   \<and> pool_calls (pool_run 1 [Call, Call, Enter 0, Enter 1]) = [Active, Waiting]"
  using pooled_concurrency_bound [of 1 "[Call, Call, Enter 0, Enter 1]"]
  by (simp add: pool_run_def pool_init_def acquire_def active_def)




lemma with_semaphore_positive:
  "0 < sem \<Longrightarrow> with_semaphore sem body w = (case body w of (r, w') \<Rightarrow> Some (r, sem, w'))"
  by (simp add: with_semaphore_def acquire_def release_def split: prod.splits)


lemma PooledStorage_init_capacity:
  "PooledStorage_init backend n = Inr self \<Longrightarrow> pool_semaphore self = nat n \<and> 0 \<le> n"
  by (auto simp: PooledStorage_init_def Semaphore_def split: if_splits)

text \<open>
  The same scoped block in \<open>HTTPStorage.get\<close>: the permit is back before
  \<open>raise_for_status\<close> runs, whatever the client did.
\<close>

lemma HTTPStorage_get_permit_restored:
  "0 < http_semaphore self \<Longrightarrow> \<exists>r w'. HTTPStorage_get client self key w = Some (r, self, w')"
  by (simp add: HTTPStorage_get_def with_semaphore_positive Let_def split: prod.splits)







section \<open>The batch transfer\<close>

lemma batch_inv_init: "batch_inv (download_images_init imgs)"
  by (simp add: batch_inv_def download_images_init_def)

lemma batch_inv_step:
  assumes "batch_inv s"
  shows "batch_inv (download_images_step s ev)"
proof (cases ev)
  case (DownloadDone i r)
  with assms show ?thesis by (auto simp: batch_inv_def)
next
  case Resume
  show ?thesis
  proof (cases "progress s = Awaiting \<and> consumed s < length (completed s)")
    case False
    with Resume assms show ?thesis by auto
  next
    case True
    with assms have c: "consumed s = length (put_calls s)"
      and m: "map Inr (put_calls s) = take (consumed s) (completed s)"
      by (auto simp: batch_inv_def)
    show ?thesis
    proof (cases "completed s ! consumed s")
      case (Inl e)
      with True Resume assms show ?thesis by (auto simp: batch_inv_def)
    next
      case (Inr kd)
      obtain k d where kd: "kd = (k, d)" by (cases kd)
      have "take (Suc (consumed s)) (completed s) = take (consumed s) (completed s) @ [Inr (k, d)]"
        using True Inr kd by (simp add: take_Suc_conv_app_nth)
      with True Resume Inr kd c m show ?thesis by (simp add: batch_inv_def)
    qed
  qed
next
  case (UploadDone r)
  with assms show ?thesis
    by (cases r) (auto simp: batch_inv_def next_iteration_def)
qed

lemma batch_inv_run: "batch_inv s \<Longrightarrow> batch_inv (foldl download_images_step s evs)"
  by (induction evs arbitrary: s) (simp_all add: batch_inv_step)

lemma raised_step:
  "progress s = Raised e \<Longrightarrow>
     progress (download_images_step s ev) = Raised e
     \<and> put_calls (download_images_step s ev) = put_calls s"
  by (cases ev) auto

lemma raised_run:
  "progress s = Raised e \<Longrightarrow>
     progress (foldl download_images_step s evs) = Raised e
     \<and> put_calls (foldl download_images_step s evs) = put_calls s"
proof (induction evs arbitrary: s)
  case Nil
  then show ?case by simp
next
  case (Cons ev evs)
  from Cons.prems have "progress (download_images_step s ev) = Raised e"
    and "put_calls (download_images_step s ev) = put_calls s"
    by (simp_all add: raised_step)
  with Cons.IH [of "download_images_step s ev"] show ?case by simp
qed

lemmas batch_eval =
  download_images_def download_images_init_def tagged_def next_iteration_def

text \<open>
  C2 (as amended). The loop isolates nothing. When it takes a completed download that
  failed, \<open>download_images\<close> raises that error and starts no upload for it; when the
  running upload fails, it raises that error; while an upload runs, no other completed
  download is taken. Once it has raised, whatever happens afterwards, the error the
  caller got stays the same and no upload is started any more.
\<close>

theorem batch_raises_first_failure:
  "(progress s = Awaiting \<and> consumed s < length (completed s)
      \<and> completed s ! consumed s = Inl e \<longrightarrow>
      progress (download_images_step s Resume) = Raised e
      \<and> put_calls (download_images_step s Resume) = put_calls s)
   \<and> (progress s = Uploading \<longrightarrow>
      progress (download_images_step s (UploadDone (Inl e))) = Raised e
      \<and> put_calls (download_images_step s (UploadDone (Inl e))) = put_calls s
      \<and> download_images_step s Resume = s)
   \<and> (progress s = Raised e \<longrightarrow>
      progress (foldl download_images_step s evs) = Raised e
      \<and> put_calls (foldl download_images_step s evs) = put_calls s)"
proof (intro conjI impI)
  assume a: "progress s = Awaiting \<and> consumed s < length (completed s)
      \<and> completed s ! consumed s = Inl e"
  then show "progress (download_images_step s Resume) = Raised e"
    and "put_calls (download_images_step s Resume) = put_calls s"
    by simp_all
next
  assume u: "progress s = Uploading"
  then show "progress (download_images_step s (UploadDone (Inl e))) = Raised e"
    and "put_calls (download_images_step s (UploadDone (Inl e))) = put_calls s"
    and "download_images_step s Resume = s"
    by simp_all
next
  assume r: "progress s = Raised e"
  from raised_run [OF r, of evs]
  show "progress (foldl download_images_step s evs) = Raised e"
    and "put_calls (foldl download_images_step s evs) = put_calls s"
    by simp_all
qed

theorem batch_raises_first_failure_witness:
  "progress (download_images_step
      (download_images [''a'', ''b''] [DownloadDone 0 (Inl (ClientError ''boom''))]) Resume)
     = Raised (ClientError ''boom'')
   \<and> progress (download_images_step
      (download_images [''a'', ''b''] [DownloadDone 0 (Inr [1]), Resume])
      (UploadDone (Inl (ClientError ''full''))))
     = Raised (ClientError ''full'')
   \<and> put_calls (download_images_step
      (download_images [''a'', ''b''] [DownloadDone 0 (Inr [1]), Resume])
      (UploadDone (Inl (ClientError ''full''))))
     = [(''a'', [1])]
   \<and> put_calls (foldl download_images_step
      (download_images [''a'', ''b''] [DownloadDone 0 (Inl (ClientError ''boom'')), Resume])
      [DownloadDone 1 (Inr [2]), Resume, UploadDone (Inr ())])
     = []"
  using
    batch_raises_first_failure [of
      "download_images [''a'', ''b''] [DownloadDone 0 (Inl (ClientError ''boom''))]"
      "ClientError ''boom''" "[]"]
    batch_raises_first_failure [of
      "download_images [''a'', ''b''] [DownloadDone 0 (Inr [1]), Resume]"
      "ClientError ''full''" "[]"]
    batch_raises_first_failure [of
      "download_images [''a'', ''b''] [DownloadDone 0 (Inl (ClientError ''boom'')), Resume]"
      "ClientError ''boom''" "[DownloadDone 1 (Inr [2]), Resume, UploadDone (Inr ())]"]
  by (simp add: batch_eval)

text \<open>
  The claim as stated fails: keys \<open>a\<close> and \<open>b\<close>, the download of \<open>a\<close> fails and that
  of \<open>b\<close> succeeds. The loop takes \<open>a\<close> first and raises; the upload of \<open>b\<close>, whose
  payload is there, is never started.
\<close>

theorem batch_isolation_counterexample:
  "progress (download_images [''a'', ''b'']
      [DownloadDone 0 (Inl (ClientError ''boom'')), DownloadDone 1 (Inr [1]), Resume, Resume,
       UploadDone (Inr ())])
     = Raised (ClientError ''boom'')
   \<and> completed (download_images [''a'', ''b'']
      [DownloadDone 0 (Inl (ClientError ''boom'')), DownloadDone 1 (Inr [1]), Resume, Resume,
       UploadDone (Inr ())])
     = [Inl (ClientError ''boom''), Inr (''b'', [1])]
   \<and> put_calls (download_images [''a'', ''b'']
      [DownloadDone 0 (Inl (ClientError ''boom'')), DownloadDone 1 (Inr [1]), Resume, Resume,
       UploadDone (Inr ())])
     = []"
  by (simp add: batch_eval)

text \<open>
  C3. After every sequence of events, the uploads started so far are, in order and with
  key and payload, an initial segment of the downloads completed so far. So an upload
  starts only once its own download has completed, and uploads start in completion
  order. That order need not be the order of the keys: with keys \<open>a\<close>, \<open>b\<close> and
  \<open>b\<close> completing first, \<open>b\<close> is uploaded first.
\<close>

theorem uploads_follow_completion:
  "prefix (map Inr (put_calls (download_images imgs evs))) (completed (download_images imgs evs))
   \<and> put_calls (download_images [''a'', ''b'']
         [DownloadDone 1 (Inr [1]), Resume, DownloadDone 0 (Inr [2]), UploadDone (Inr ()),
          Resume, UploadDone (Inr ())]) = [(''b'', [1]), (''a'', [2])]"
proof
  have "batch_inv (download_images imgs evs)"
    unfolding download_images_def by (intro batch_inv_run batch_inv_init)
  then have "map Inr (put_calls (download_images imgs evs)) =
      take (length (put_calls (download_images imgs evs))) (completed (download_images imgs evs))"
    by (simp add: batch_inv_def)
  then show "prefix (map Inr (put_calls (download_images imgs evs)))
      (completed (download_images imgs evs))"
    by (metis take_is_prefix)
next
  show "put_calls (download_images [''a'', ''b'']
         [DownloadDone 1 (Inr [1]), Resume, DownloadDone 0 (Inr [2]), UploadDone (Inr ()),
          Resume, UploadDone (Inr ())]) = [(''b'', [1]), (''a'', [2])]"
    by (simp add: batch_eval)
qed

theorem uploads_follow_completion_witness:
  "prefix [Inr (''b'', [1])]
      (completed (download_images [''a'', ''b'']
         [DownloadDone 1 (Inr [1]), Resume, DownloadDone 0 (Inr [2])]))
   \<and> completed (download_images [''a'', ''b'']
         [DownloadDone 1 (Inr [1]), Resume, DownloadDone 0 (Inr [2])])
       = [Inr (''b'', [1]), Inr (''a'', [2])]"
  using uploads_follow_completion [of "[''a'', ''b'']"
      "[DownloadDone 1 (Inr [1]), Resume, DownloadDone 0 (Inr [2])]"]
  by (simp add: batch_eval)

section \<open>LocalStorage\<close>

text \<open>
  C4 (as amended). Whenever \<open>put(k, p)\<close> on a Local backend returns without an
  error and the file system then reads \<open>root / k\<close> back, the following \<open>get(k)\<close>
  returns exactly \<open>p\<close>.
\<close>

theorem local_put_get_roundtrip:
  assumes "LocalStorage_put os self key file w = (Inr (), w')"
    and "reads_back os (truediv os (local_root self) key) w'"
  shows "fst (LocalStorage_get os self key w') = Inr file"
proof -
  let ?path = "truediv os (local_root self) key"
  from assms(1) obtain w1 where "write_bytes os ?path file w1 = (Inr (), w')"
    by (auto simp: LocalStorage_put_def Let_def split: prod.splits sum.splits)
  with assms(2) have "path_exists os ?path w' = Inr True"
    and "fst (read_bytes os ?path w') = Inr file"
    unfolding reads_back_def by blast+
  then show ?thesis
    by (simp add: LocalStorage_get_def Let_def)
qed

lemma mem_write_bytes_file:
  "mem_write_bytes p data fs = Inr fs' \<Longrightarrow> fs' p = Some (File c) \<Longrightarrow> data = c"
  by (auto simp: mem_write_bytes_def split: option.splits node.splits)

lemma mem_os_reads_back:
  assumes "fs' p = Some (File c)"
  shows "reads_back mem_os p fs'"
  unfolding reads_back_def
proof (intro allI impI)
  fix data w
  assume "write_bytes mem_os p data w = (Inr (), fs')"
  then have "mem_write_bytes p data w = Inr fs'"
    by (auto simp: mem_os_def split: sum.splits)
  from mem_write_bytes_file [OF this assms] assms
  show "path_exists mem_os p fs' = Inr True \<and> fst (read_bytes mem_os p fs') = Inr data"
    by (simp add: mem_os_def mem_read_bytes_def)
qed

lemmas mem_eval =
  mem_os_def LocalStorage_init_def LocalStorage_put_def LocalStorage_get_def mem_truediv_def
  parts_def tmp_x_def root_only_def with_tmp_x_def with_dev_null_def mem_os_mkdir_def
  mem_mkdir_exist_ok_def mem_is_dir_def mem_write_bytes_def mem_read_bytes_def Let_def

theorem local_put_get_roundtrip_witness:
  "LocalStorage_put mem_os \<lparr>local_root = tmp_x\<rparr> ''a/b.bin'' [1, 2, 3] root_only =
     (Inr (), [[] \<mapsto> Dir, [''tmp''] \<mapsto> Dir, [''x'', ''tmp''] \<mapsto> Dir,
               [''a'', ''x'', ''tmp''] \<mapsto> Dir, [''b.bin'', ''a'', ''x'', ''tmp''] \<mapsto> File [1, 2, 3]])
   \<and> fst (LocalStorage_get mem_os \<lparr>local_root = tmp_x\<rparr> ''a/b.bin''
        [[] \<mapsto> Dir, [''tmp''] \<mapsto> Dir, [''x'', ''tmp''] \<mapsto> Dir,
         [''a'', ''x'', ''tmp''] \<mapsto> Dir, [''b.bin'', ''a'', ''x'', ''tmp''] \<mapsto> File [1, 2, 3]])
       = Inr [1, 2, 3]"
proof -
  have p: "LocalStorage_put mem_os \<lparr>local_root = tmp_x\<rparr> ''a/b.bin'' [1, 2, 3] root_only =
     (Inr (), [[] \<mapsto> Dir, [''tmp''] \<mapsto> Dir, [''x'', ''tmp''] \<mapsto> Dir,
               [''a'', ''x'', ''tmp''] \<mapsto> Dir, [''b.bin'', ''a'', ''x'', ''tmp''] \<mapsto> File [1, 2, 3]])"
    by (simp add: mem_eval)
  have f: "reads_back mem_os (truediv mem_os (local_root \<lparr>local_root = tmp_x\<rparr>) ''a/b.bin'')
     [[] \<mapsto> Dir, [''tmp''] \<mapsto> Dir, [''x'', ''tmp''] \<mapsto> Dir,
      [''a'', ''x'', ''tmp''] \<mapsto> Dir, [''b.bin'', ''a'', ''x'', ''tmp''] \<mapsto> File [1, 2, 3]]"
    by (rule mem_os_reads_back [where c = "[1, 2, 3]"]) (simp add: mem_eval)
  from local_put_get_roundtrip [OF p f] p show ?thesis by simp
qed

text \<open>
  The claim as stated, for every key, fails twice over. On a backend built on
  \<open>/tmp/x\<close> the key \<open>""\<close> names the root directory itself: \<open>put\<close> raises
  \<open>IsADirectoryError\<close> and the following \<open>get\<close> raises it too. And the key
  \<open>"/dev/null"\<close> replaces the root and names the null device: \<open>put\<close> returns, and
  the following \<open>get\<close> returns the empty payload, not the one put.
\<close>

theorem local_roundtrip_counterexample:
  "LocalStorage_init mem_os tmp_x root_only = (Inr \<lparr>local_root = tmp_x\<rparr>, with_tmp_x)
   \<and> LocalStorage_put mem_os \<lparr>local_root = tmp_x\<rparr> [] [1, 2] with_tmp_x
       = (Inl IsADirectoryError, with_tmp_x)
   \<and> LocalStorage_get mem_os \<lparr>local_root = tmp_x\<rparr> [] with_tmp_x
       = (Inl IsADirectoryError, with_tmp_x)
   \<and> LocalStorage_put mem_os \<lparr>local_root = tmp_x\<rparr> ''/dev/null'' [1, 2] with_dev_null
       = (Inr (), with_dev_null)
   \<and> LocalStorage_get mem_os \<lparr>local_root = tmp_x\<rparr> ''/dev/null'' with_dev_null
       = (Inr [], with_dev_null)"
  by (simp add: mem_eval)

text \<open>
  C8 (as amended). Where \<open>Path.exists()\<close> answers that nothing exists at
  \<open>root / key\<close>, \<open>get\<close> fails with \<open>FileNotFoundError\<close> and the file system is as
  it was: the check is the only operation made.
\<close>

theorem local_get_missing:
  assumes "path_exists os (truediv os (local_root self) key) w = Inr False"
  shows "LocalStorage_get os self key w = (Inl FileNotFoundError, w)"
  using assms by (simp add: LocalStorage_get_def Let_def)

theorem local_get_missing_witness:
  "LocalStorage_get mem_os \<lparr>local_root = tmp_x\<rparr> ''a/b.bin'' with_tmp_x
     = (Inl FileNotFoundError, with_tmp_x)"
proof -
  have "path_exists mem_os (truediv mem_os (local_root \<lparr>local_root = tmp_x\<rparr>) ''a/b.bin'') with_tmp_x
      = Inr False"
    by (simp add: mem_eval)
  then show ?thesis by (rule local_get_missing)
qed

text \<open>
  The claim as stated fails where the key names a directory: after \<open>put("a/b", p)\<close>
  no object is stored at \<open>a\<close>, yet \<open>get("a")\<close> raises \<open>IsADirectoryError\<close>, not
  \<open>FileNotFoundError\<close>.
\<close>

theorem local_not_found_counterexample:
  "LocalStorage_put mem_os \<lparr>local_root = tmp_x\<rparr> ''a/b'' [1, 2] with_tmp_x =
     (Inr (), [[] \<mapsto> Dir, [''tmp''] \<mapsto> Dir, [''x'', ''tmp''] \<mapsto> Dir,
               [''a'', ''x'', ''tmp''] \<mapsto> Dir, [''b'', ''a'', ''x'', ''tmp''] \<mapsto> File [1, 2]])
   \<and> LocalStorage_get mem_os \<lparr>local_root = tmp_x\<rparr> ''a''
        [[] \<mapsto> Dir, [''tmp''] \<mapsto> Dir, [''x'', ''tmp''] \<mapsto> Dir,
         [''a'', ''x'', ''tmp''] \<mapsto> Dir, [''b'', ''a'', ''x'', ''tmp''] \<mapsto> File [1, 2]] =
     (Inl IsADirectoryError,
        [[] \<mapsto> Dir, [''tmp''] \<mapsto> Dir, [''x'', ''tmp''] \<mapsto> Dir,
         [''a'', ''x'', ''tmp''] \<mapsto> Dir, [''b'', ''a'', ''x'', ''tmp''] \<mapsto> File [1, 2]])"
  by (simp add: mem_eval)

section \<open>HTTPStorage\<close>

text \<open>
  C9. \<open>put\<close> on the HTTP backend raises \<open>RuntimeError\<close> for every key and payload;
  the backend object and the world are as they were, and no client is involved.
\<close>

theorem http_put_read_only:
  "HTTPStorage_put self key file w = (Inl RuntimeError, self, w)"
  by (simp add: HTTPStorage_put_def)

section \<open>S3Storage\<close>

lemma S3Storage_init_fields:
  assumes "S3Storage_init made bucket pref n = Inr self"
  shows "s3_bucket self = strip (CHR ''/'') bucket"
    and "s3_prefix self = strip (CHR ''/'') pref @ ''/''"
    and "s3_semaphore self = nat n" and "s3_max_workers self = nat n" and "1 \<le> n"
  using assms
  by (auto simp: S3Storage_init_def ThreadPoolExecutor_def Semaphore_def
        split: if_splits sum.splits)

text \<open>
  C10. On an S3 backend built from \<open>bucket\<close> and \<open>prefix\<close>, \<open>put\<close> hands the client
  the object name \<open>prefix.strip("/") + "/" + key.lstrip("/")\<close> and \<open>get\<close> the same
  one; with the empty prefix that name is \<open>"/"\<close> followed by the stripped key.
\<close>

theorem s3_object_name:
  assumes "S3Storage_init made bucket pref n = Inr self"
  shows "S3Storage_put client self key file w =
           (case upload_fileobj client file (strip (CHR ''/'') bucket)
                   (strip (CHR ''/'') pref @ ''/'' @ lstrip (CHR ''/'') key) w of
              (r, w') \<Rightarrow> Some (r, self, w'))
       \<and> S3Storage_get client self key w =
           (case download_fileobj client (strip (CHR ''/'') bucket)
                   (strip (CHR ''/'') pref @ ''/'' @ lstrip (CHR ''/'') key) w of
              (r, w') \<Rightarrow> Some (r, self, w'))
       \<and> (pref = [] \<longrightarrow>
            s3_prefix self @ lstrip (CHR ''/'') key = CHR ''/'' # lstrip (CHR ''/'') key)"
proof -
  from S3Storage_init_fields [OF assms] have pos: "0 < s3_semaphore self" by simp
  show ?thesis
    using S3Storage_init_fields(1,2) [OF assms]
    by (auto simp: S3Storage_put_def S3Storage_get_def with_semaphore_positive [OF pos]
          strip_def lstrip_def rstrip_def split: prod.splits)
qed

theorem s3_object_name_witness:
  "S3Storage_init (Inr ()) ''/bk/'' [] 2 =
     Inr \<lparr>s3_bucket = ''bk'', s3_prefix = ''/'', s3_max_workers = 2, s3_semaphore = 2\<rparr>
   \<and> S3Storage_put recording_client
        \<lparr>s3_bucket = ''bk'', s3_prefix = ''/'', s3_max_workers = 2, s3_semaphore = 2\<rparr>
        ''/img/1.bin'' [9] [] =
      Some (Inr (), \<lparr>s3_bucket = ''bk'', s3_prefix = ''/'', s3_max_workers = 2, s3_semaphore = 2\<rparr>,
            [(''bk'', ''/img/1.bin'')])
   \<and> S3Storage_get recording_client
        \<lparr>s3_bucket = ''bk'', s3_prefix = ''/'', s3_max_workers = 2, s3_semaphore = 2\<rparr>
        ''img/1.bin'' [] =
      Some (Inr [], \<lparr>s3_bucket = ''bk'', s3_prefix = ''/'', s3_max_workers = 2, s3_semaphore = 2\<rparr>,
            [(''bk'', ''/img/1.bin'')])"
proof -
  have i: "S3Storage_init (Inr ()) ''/bk/'' [] 2 =
     Inr \<lparr>s3_bucket = ''bk'', s3_prefix = ''/'', s3_max_workers = 2, s3_semaphore = 2\<rparr>"
    by (simp add: S3Storage_init_def ThreadPoolExecutor_def Semaphore_def strip_def lstrip_def
          rstrip_def)
  from s3_object_name [OF i, of recording_client "''/img/1.bin''" "[9]" "[]"]
       s3_object_name [OF i, of recording_client "''img/1.bin''" "[9]" "[]"] i
  show ?thesis
    by (simp add: recording_client_def strip_def lstrip_def rstrip_def)
qed

section \<open>The factory\<close>

text \<open>
  C7. When a field the selected kind requires is missing, \<open>build_storage\<close> fails with
  \<open>AssertionError\<close> (the specification's \<open>ConfigurationError\<close>); when the
  discriminator is none of the four kinds it fails with \<open>NotImplementedError\<close>
  (\<open>UnsupportedKind\<close>). Either way no backend is built and the file system is
  untouched.
\<close>

theorem factory_errors:
  "(required_field_missing st \<longrightarrow> build_storage os libs st n w = (Inl AssertionError, w))
   \<and> (\<not> known_kind (cfg_backend st) \<longrightarrow> build_storage os libs st n w = (Inl NotImplementedError, w))"
  by (auto simp: required_field_missing_def known_kind_def build_storage_def split: if_splits)

theorem factory_errors_witness:
  "build_storage mem_os working_libraries
       \<lparr>cfg_backend = ''s3'', cfg_root_dir = None, cfg_base_url = None,
        cfg_headers = [], cfg_bucket = None, cfg_prefix = []\<rparr> 1 root_only
     = (Inl AssertionError, root_only)
   \<and> build_storage mem_os working_libraries
       \<lparr>cfg_backend = ''ftp'', cfg_root_dir = None, cfg_base_url = None,
        cfg_headers = [], cfg_bucket = Some ''b'', cfg_prefix = []\<rparr> 1 root_only
     = (Inl NotImplementedError, root_only)"
  using factory_errors [of "\<lparr>cfg_backend = ''s3'', cfg_root_dir = None, cfg_base_url = None,
                  cfg_headers = [], cfg_bucket = None, cfg_prefix = []\<rparr>"
                  mem_os working_libraries 1 root_only]
        factory_errors [of "\<lparr>cfg_backend = ''ftp'', cfg_root_dir = None, cfg_base_url = None,
                  cfg_headers = [], cfg_bucket = Some ''b'', cfg_prefix = []\<rparr>"
                  mem_os working_libraries 1 root_only]
  by (simp add: required_field_missing_def known_kind_def)






end
